theory Spec2Isabelle
  imports Complex_Main "HOL-Library.Sublist"
begin

section \<open>Python values used by app.py\<close>

text \<open>
  Strings are byte lists (UTF-8). A finite float is modelled by the rational number it
  denotes: \<open>divmod\<close> by 60 and \<open>int\<close> are exact on floats below \<open>2^53\<close>, and the
  \<open>.3f\<close> conversion rounds the exact value to the nearest multiple of \<open>1/1000\<close>, ties
  to the even digit. Infinite and NaN inputs are outside the model.
\<close>

type_synonym path = string
type_synonym bytes = string

text \<open>
  An exception object: whether its class derives from \<open>Exception\<close> (what
  \<open>except Exception\<close> tests), and the text \<open>str(e)\<close>. \<open>KeyboardInterrupt\<close>,
  \<open>SystemExit\<close> and the framework's script-control exceptions derive from
  \<open>BaseException\<close> only.
\<close>

datatype py_exception =
    ExceptionInstance string
  | BaseExceptionOnly string

fun isinstance_Exception :: "py_exception \<Rightarrow> bool" where
  "isinstance_Exception (ExceptionInstance _) = True"
| "isinstance_Exception (BaseExceptionOnly _) = False"

fun str_exc :: "py_exception \<Rightarrow> string" where
  "str_exc (ExceptionInstance t) = t"
| "str_exc (BaseExceptionOnly t) = t"

subsection \<open>String helpers: \<open>str.lower\<close>, \<open>str.split\<close>, decimal digits\<close>

text \<open>\<open>str.lower\<close> on the ASCII letters; other bytes are kept (the accepted extensions
  are ASCII).\<close>

definition lower_char :: "char \<Rightarrow> char" where
  "lower_char c =
     (let n = (of_char c :: nat) in if 65 \<le> n \<and> n \<le> 90 then char_of (n + 32) else c)"

definition lower :: "string \<Rightarrow> string" where
  "lower s = map lower_char s"

text \<open>\<open>s.split(sep)\<close> for a one-character separator: never the empty list.\<close>

fun split :: "char \<Rightarrow> string \<Rightarrow> string list" where
  "split sep [] = [] # []"
| "split sep (c # cs) =
     (if c = sep then [] # split sep cs
      else (case split sep cs of
              w # ws \<Rightarrow> (c # w) # ws
            | [] \<Rightarrow> [c] # []))"

definition digit_char :: "nat \<Rightarrow> char" where
  "digit_char d = char_of (48 + d)"

fun digits :: "nat \<Rightarrow> string" where
  "digits n = (if n < 10 then [digit_char n] else digits (n div 10) @ [digit_char (n mod 10)])"

declare digits.simps [simp del]

definition is_digit :: "char \<Rightarrow> bool" where
  "is_digit c = (let n = (of_char c :: nat) in 48 \<le> n \<and> n \<le> 57)"

definition zfill :: "nat \<Rightarrow> string \<Rightarrow> string" where
  "zfill w s = replicate (w - length s) (CHR ''0'') @ s"

subsection \<open>Format specifications \<open>02d\<close> and \<open>06.3f\<close>\<close>

text \<open>\<open>f"{n:02d}"\<close>: decimal, zero-padded to width 2, the sign counted in the width.\<close>

definition fmt_02d :: "int \<Rightarrow> string" where
  "fmt_02d n =
     (if n < 0 then CHR ''-'' # zfill 1 (digits (nat (- n))) else zfill 2 (digits (nat n)))"

definition round_half_even :: "rat \<Rightarrow> int" where
  "round_half_even y =
     (let f = \<lfloor>y\<rfloor>; d = y - of_int f in
      if d < 1 / 2 then f
      else if 1 / 2 < d then f + 1
      else if even f then f else f + 1)"

text \<open>\<open>f"{s:06.3f}"\<close>: three decimals, zero-padded to width 6, the sign counted in the width.\<close>

definition fmt_06_3f :: "rat \<Rightarrow> string" where
  "fmt_06_3f s =
     (let r = nat (round_half_even (\<bar>s\<bar> * 1000));
          body = digits (r div 1000) @ ''.'' @ zfill 3 (digits (r mod 1000))
      in if s < 0 then CHR ''-'' # zfill 5 body else zfill 6 body)"

text \<open>\<open>divmod(x, y)\<close> for \<open>y > 0\<close>: floor quotient and the remainder in \<open>[0, y)\<close>.\<close>

definition py_divmod :: "rat \<Rightarrow> rat \<Rightarrow> rat \<times> rat" where
  "py_divmod x y = (of_int \<lfloor>x / y\<rfloor>, x - of_int \<lfloor>x / y\<rfloor> * y)"

section \<open>The format step\<close>

text \<open>
  \<^verbatim>\<open>
  def format_timestamp(seconds):
      m, s = divmod(seconds, 60)
      h, m = divmod(m, 60)
      return f"{int(h):02d}:{int(m):02d}:{s:06.3f}"
  \<close>
  \<open>int\<close> truncates; \<open>h\<close> and \<open>m\<close> are whole numbers here.
\<close>

definition format_timestamp :: "rat \<Rightarrow> string" where
  "format_timestamp seconds =
     (let (m, s) = py_divmod seconds 60;
          (h, m) = py_divmod m 60
      in fmt_02d \<lfloor>h\<rfloor> @ '':'' @ fmt_02d \<lfloor>m\<rfloor> @ '':'' @ fmt_06_3f s)"

record segment =
  seg_start :: rat
  seg_end :: rat
  seg_text :: string

record transcription =
  full_text :: string
  segments :: "segment list"

text \<open>One row of the table: the keys of the source's dict are the three columns.\<close>

record table_row =
  col_start :: string
  col_end :: string
  col_text :: string

text \<open>
  The body of the loop over \<open>result["segments"]\<close>: append a row to \<open>table_data\<close> and a
  line to \<open>timestamp_text\<close>.
\<close>

definition segment_step :: "table_row list \<times> string \<Rightarrow> segment \<Rightarrow> table_row list \<times> string" where
  "segment_step acc seg =
     (let start_fmt = format_timestamp (seg_start seg);
          end_fmt = format_timestamp (seg_end seg)
      in (fst acc @ [\<lparr>col_start = start_fmt, col_end = end_fmt, col_text = seg_text seg\<rparr>],
          snd acc @ ''['' @ start_fmt @ '' --> '' @ end_fmt @ ''] '' @ seg_text seg @ [CHR 0x0A]))"

definition format_segments :: "segment list \<Rightarrow> table_row list \<times> string" where
  "format_segments segs = foldl segment_step ([], []) segs"

definition timestamp_text :: "transcription \<Rightarrow> string" where
  "timestamp_text result = snd (format_segments (segments result))"

text \<open>The line the loop appends for one segment.\<close>

definition segment_line :: "segment \<Rightarrow> string" where
  "segment_line seg =
     ''['' @ format_timestamp (seg_start seg) @ '' --> '' @ format_timestamp (seg_end seg) @
     ''] '' @ seg_text seg @ [CHR 0x0A]"

section \<open>The process: file system, model cache, what the page shows\<close>

text \<open>
  The file system maps a path to the file's bytes. \<open>os.unlink\<close> of a missing path raises
  \<open>FileNotFoundError\<close>; \<open>os.path.exists\<close> is membership.
\<close>

type_synonym filesystem = "path \<rightharpoonup> bytes"

definition os_path_exists :: "filesystem \<Rightarrow> path \<Rightarrow> bool" where
  "os_path_exists disk p = (disk p \<noteq> None)"

definition FileNotFoundError :: py_exception where
  "FileNotFoundError = ExceptionInstance ''[Errno 2] No such file or directory''"

definition os_unlink :: "filesystem \<Rightarrow> path \<Rightarrow> py_exception + filesystem" where
  "os_unlink disk p = (if disk p = None then Inl FileNotFoundError else Inr (disk(p := None)))"

text \<open>A loaded model is an object; the number is its identity.\<close>

datatype whisper_model = Model nat

text \<open>
  The calls the script makes, in order. Widget labels, help texts and style sheets are
  left out; what a claim reads is kept: the text of an error box, the format of the audio
  player, the arguments of the calls into the transcription library and into the
  operating system, the data of the two downloads.
\<close>

datatype event =
    SetPageConfig
  | Markdown
  | Title
  | OsSystem string
  | ErrorBox string
  | Header
  | Selectbox
  | InfoBox
  | WarningBox
  | Columns
  | Subheader
  | FileUploader
  | Video
  | Audio string
  | Button
  | Spinner
  | TempFileCreated path
  | WhisperLoadModel string string
  | Transcribe whisper_model path "(string \<times> string) list"
  | SuccessBox
  | Tabs
  | TextArea string
  | Dataframe "table_row list"
  | DownloadButton string
  | OsUnlink path
  | Expander

record state =
  disk :: filesystem
  cache :: "string \<rightharpoonup> whisper_model"
  trace :: "event list"

definition emit :: "event \<Rightarrow> state \<Rightarrow> state" where
  "emit e s = s\<lparr>trace := trace s @ [e]\<rparr>"

text \<open>
  What one run of the script reads from outside: the exit status of the shell command,
  the widgets' values, the names the temporary-file module draws, and the behaviour of
  the transcription library (loading may raise; transcribing may raise and may change
  files).
\<close>

record upload =
  name :: string
  getvalue :: bytes

record env =
  ffmpeg_status :: int
  cuda_is_available :: bool
  model_option :: string
  language_option :: string
  uploaded_file :: "upload option"
  transcribe_button :: bool
  tmp_dir :: string
  tmp_names :: "string list"
  whisper_load :: "string \<Rightarrow> string \<Rightarrow> py_exception + whisper_model"
  whisper_transcribe ::
    "whisper_model \<Rightarrow> path \<Rightarrow> (string \<times> string) list \<Rightarrow> filesystem
      \<Rightarrow> (py_exception + transcription) \<times> filesystem"

text \<open>How a call of the script ends: it returns, \<open>st.stop()\<close> ends the run, or an
  exception leaves it.\<close>

datatype outcome = Returned | Stopped | Raised py_exception

subsection \<open>\<open>load_whisper_model\<close> under \<open>@st.cache_resource\<close>\<close>

text \<open>
  \<^verbatim>\<open>
  @st.cache_resource
  def load_whisper_model(model_name):
      device = "cuda" if torch.cuda.is_available() else "cpu"
      return whisper.load_model(model_name, device=device)
  \<close>
  The body of the function, without the decorator: it picks the device and calls the
  library's loader.
\<close>

definition load_whisper_model_body :: "env \<Rightarrow> string \<Rightarrow> state \<Rightarrow> (py_exception + whisper_model) \<times> state" where
  "load_whisper_model_body ev model_name s =
     (let device = (if cuda_is_available ev then ''cuda'' else ''cpu'')
      in (whisper_load ev model_name device, emit (WhisperLoadModel model_name device) s))"

text \<open>
  Modelled from the spec: the decorator \<open>st.cache_resource\<close> is code of the web
  framework and is not among the sources. The spec's step "acquire model" resolves a
  cached model instance for the requested size and loads it on first use, from a
  process-wide cache keyed by size that is never invalidated or evicted. So a call whose
  argument is in the cache returns the stored object and does not run the body; otherwise
  the body runs, and its result is stored when it returns. When the body raises there is
  no instance to store, and the exception goes to the caller.
\<close>

definition load_whisper_model :: "env \<Rightarrow> string \<Rightarrow> state \<Rightarrow> (py_exception + whisper_model) \<times> state" where
  "load_whisper_model ev model_name s =
     (case cache s model_name of
        Some m \<Rightarrow> (Inr m, s)
      | None \<Rightarrow>
          (case load_whisper_model_body ev model_name s of
             (Inl e, s') \<Rightarrow> (Inl e, s')
           | (Inr m, s') \<Rightarrow> (Inr m, s'\<lparr>cache := (cache s')(model_name \<mapsto> m)\<rparr>)))"

text \<open>The number of times the body ran for a model size, read off the trace.\<close>

definition load_count :: "string \<Rightarrow> event list \<Rightarrow> nat" where
  "load_count model_name evs =
     length (filter (\<lambda>e. case e of WhisperLoadModel n _ \<Rightarrow> n = model_name | _ \<Rightarrow> False) evs)"

subsection \<open>\<open>check_ffmpeg\<close>\<close>

text \<open>
  \<^verbatim>\<open>
  def check_ffmpeg():
      if os.system("ffmpeg -version > NUL 2>&1") != 0:
          st.error(...)
          st.stop()
  \<close>
\<close>

text \<open>The text of the error box, as UTF-8 bytes (a warning sign, then a sentence in
  Japanese that names the download page).\<close>

definition ffmpeg_missing_message :: string where
  "ffmpeg_missing_message =
     [CHR 0xE2, CHR 0x9A, CHR 0xA0, CHR 0xEF, CHR 0xB8, CHR 0x8F, CHR 0x20, CHR 0x46,
      CHR 0x46, CHR 0x6D, CHR 0x70, CHR 0x65, CHR 0x67, CHR 0xE3, CHR 0x81, CHR 0x8C,
      CHR 0xE3, CHR 0x82, CHR 0xA4, CHR 0xE3, CHR 0x83, CHR 0xB3, CHR 0xE3, CHR 0x82,
      CHR 0xB9, CHR 0xE3, CHR 0x83, CHR 0x88, CHR 0xE3, CHR 0x83, CHR 0xBC, CHR 0xE3,
      CHR 0x83, CHR 0xAB, CHR 0xE3, CHR 0x81, CHR 0x95, CHR 0xE3, CHR 0x82, CHR 0x8C,
      CHR 0xE3, CHR 0x81, CHR 0xA6, CHR 0xE3, CHR 0x81, CHR 0x84, CHR 0xE3, CHR 0x81,
      CHR 0xBE, CHR 0xE3, CHR 0x81, CHR 0x9B, CHR 0xE3, CHR 0x82, CHR 0x93, CHR 0xE3,
      CHR 0x80, CHR 0x82, CHR 0x68, CHR 0x74, CHR 0x74, CHR 0x70, CHR 0x73, CHR 0x3A,
      CHR 0x2F, CHR 0x2F, CHR 0x66, CHR 0x66, CHR 0x6D, CHR 0x70, CHR 0x65, CHR 0x67,
      CHR 0x2E, CHR 0x6F, CHR 0x72, CHR 0x67, CHR 0x2F, CHR 0x64, CHR 0x6F, CHR 0x77,
      CHR 0x6E, CHR 0x6C, CHR 0x6F, CHR 0x61, CHR 0x64, CHR 0x2E, CHR 0x68, CHR 0x74,
      CHR 0x6D, CHR 0x6C, CHR 0x20, CHR 0xE3, CHR 0x81, CHR 0x8B, CHR 0xE3, CHR 0x82,
      CHR 0x89, CHR 0xE3, CHR 0x83, CHR 0x80, CHR 0xE3, CHR 0x82, CHR 0xA6, CHR 0xE3,
      CHR 0x83, CHR 0xB3, CHR 0xE3, CHR 0x83, CHR 0xAD, CHR 0xE3, CHR 0x83, CHR 0xBC,
      CHR 0xE3, CHR 0x83, CHR 0x89, CHR 0xE3, CHR 0x81, CHR 0x97, CHR 0xE3, CHR 0x81,
      CHR 0xA6, CHR 0xE3, CHR 0x80, CHR 0x81, CHR 0xE3, CHR 0x83, CHR 0x91, CHR 0xE3,
      CHR 0x82, CHR 0xB9, CHR 0xE3, CHR 0x82, CHR 0x92, CHR 0xE9, CHR 0x80, CHR 0x9A,
      CHR 0xE3, CHR 0x81, CHR 0x97, CHR 0xE3, CHR 0x81, CHR 0xA6, CHR 0xE3, CHR 0x81,
      CHR 0x8F, CHR 0xE3, CHR 0x81, CHR 0xA0, CHR 0xE3, CHR 0x81, CHR 0x95, CHR 0xE3,
      CHR 0x81, CHR 0x84, CHR 0xE3, CHR 0x80, CHR 0x82]"

definition check_ffmpeg :: "env \<Rightarrow> state \<Rightarrow> outcome \<times> state" where
  "check_ffmpeg ev s =
     (let s1 = emit (OsSystem ''ffmpeg -version > NUL 2>&1'') s
      in if ffmpeg_status ev \<noteq> 0 then (Stopped, emit (ErrorBox ffmpeg_missing_message) s1)
         else (Returned, s1))"

subsection \<open>The sidebar and the preview\<close>

definition sidebar :: "env \<Rightarrow> state \<Rightarrow> state" where
  "sidebar ev s =
     (let s1 = emit Header s;
          s2 = emit Selectbox s1;
          s3 = emit Selectbox s2;
          s4 = emit Markdown s3;
          s5 = emit InfoBox s4;
          s6 = (if \<not> cuda_is_available ev then emit WarningBox s5 else s5);
          s7 = emit Markdown s6
      in emit Markdown s7)"

text \<open>\<open>file_ext = uploaded_file.name.split('.')[-1].lower()\<close>\<close>

definition file_ext_of :: "string \<Rightarrow> string" where
  "file_ext_of filename = lower (last (split (CHR ''.'') filename))"

text \<open>
  \<^verbatim>\<open>
  if file_ext in ['mp4', 'mov', 'mkv', 'webm']:
       st.video(uploaded_file)
  else:
       st.audio(uploaded_file, format=f"audio/{file_ext}")
  \<close>
\<close>

definition player :: "string \<Rightarrow> event" where
  "player file_ext =
     (if file_ext \<in> set [''mp4'', ''mov'', ''mkv'', ''webm''] then Video
      else Audio (''audio/'' @ file_ext))"

definition preview :: "string \<Rightarrow> state \<Rightarrow> state" where
  "preview file_ext s = emit (player file_ext) (emit InfoBox (emit Subheader s))"

subsection \<open>The persist step\<close>

text \<open>
  \<^verbatim>\<open>
  with tempfile.NamedTemporaryFile(delete=False, suffix=f".{file_ext}") as tmp_file:
      tmp_file.write(uploaded_file.getvalue())
      temp_filename = tmp_file.name
  \<close>
  The module draws random names and creates the file exclusively: a name whose path
  exists is skipped, and \<open>FileExistsError\<close> is raised when the draws run out. The path
  is the directory (with its separator), the prefix \<open>tmp\<close>, the drawn name and the
  suffix. \<open>delete=False\<close>: closing the file keeps it.
\<close>

definition FileExistsError :: py_exception where
  "FileExistsError = ExceptionInstance ''[Errno 17] No usable temporary file name found''"

fun mkstemp :: "filesystem \<Rightarrow> string \<Rightarrow> string list \<Rightarrow> string \<Rightarrow> path option" where
  "mkstemp fs dir [] suf = None"
| "mkstemp fs dir (n # ns) suf =
     (let file = dir @ ''tmp'' @ n @ suf
      in if os_path_exists fs file then mkstemp fs dir ns suf else Some file)"

definition persist :: "env \<Rightarrow> upload \<Rightarrow> string \<Rightarrow> state \<Rightarrow> py_exception + (path \<times> state)" where
  "persist ev uf file_ext s =
     (case mkstemp (disk s) (tmp_dir ev) (tmp_names ev) (''.'' @ file_ext) of
        None \<Rightarrow> Inl FileExistsError
      | Some temp_filename \<Rightarrow>
          Inr (temp_filename,
               emit (TempFileCreated temp_filename)
                 (s\<lparr>disk := (disk s)(temp_filename \<mapsto> getvalue uf)\<rparr>)))"

subsection \<open>The body of the \<open>try\<close>\<close>

text \<open>
  \<^verbatim>\<open>
  options = {}
  if language_option:
      options["language"] = language_option
  \<close>
  The dictionary, as the list of its items.
\<close>

definition build_options :: "string \<Rightarrow> (string \<times> string) list" where
  "build_options lang = (if lang \<noteq> [] then [(''language'', lang)] else [])"

definition show_result :: "transcription \<Rightarrow> state \<Rightarrow> state" where
  "show_result result s =
     (let s1 = emit SuccessBox s;
          s2 = emit Tabs s1;
          s3 = emit (TextArea (full_text result)) s2;
          (table_data, timestamp_text) = format_segments (segments result);
          s4 = emit (Dataframe table_data) s3;
          s5 = emit Columns s4;
          s6 = emit (DownloadButton (full_text result)) s5
      in emit (DownloadButton timestamp_text) s6)"

definition try_body :: "env \<Rightarrow> path \<Rightarrow> state \<Rightarrow> (py_exception + unit) \<times> state" where
  "try_body ev temp_filename s =
     (case load_whisper_model ev (model_option ev) s of
        (Inl e, s1) \<Rightarrow> (Inl e, s1)
      | (Inr model, s1) \<Rightarrow>
          (let options = build_options (language_option ev);
               s2 = emit (Transcribe model temp_filename options) s1
           in case whisper_transcribe ev model temp_filename options (disk s2) of
                (Inl e, fs') \<Rightarrow> (Inl e, s2\<lparr>disk := fs'\<rparr>)
              | (Inr result, fs') \<Rightarrow> (Inr (), show_result result (s2\<lparr>disk := fs'\<rparr>))))"

subsection \<open>\<open>except Exception as e\<close> and \<open>finally\<close>\<close>

text \<open>The prefix of the error box, as UTF-8 bytes (a cross mark, then "an error occurred: "
  in Japanese); \<open>str(e)\<close> follows it.\<close>

definition error_prefix :: string where
  "error_prefix =
     [CHR 0xE2, CHR 0x9D, CHR 0x8C, CHR 0x20, CHR 0xE3, CHR 0x82, CHR 0xA8, CHR 0xE3,
      CHR 0x83, CHR 0xA9, CHR 0xE3, CHR 0x83, CHR 0xBC, CHR 0xE3, CHR 0x81, CHR 0x8C,
      CHR 0xE7, CHR 0x99, CHR 0xBA, CHR 0xE7, CHR 0x94, CHR 0x9F, CHR 0xE3, CHR 0x81,
      CHR 0x97, CHR 0xE3, CHR 0x81, CHR 0xBE, CHR 0xE3, CHR 0x81, CHR 0x97, CHR 0xE3,
      CHR 0x81, CHR 0x9F, CHR 0x3A, CHR 0x20]"

text \<open>
  \<^verbatim>\<open>
  except Exception as e:
      st.error(f"... {str(e)}")
  \<close>
  The clause handles an exception whose class derives from \<open>Exception\<close>; any other
  exception stays pending.
\<close>

definition except_clause :: "(py_exception + unit) \<times> state \<Rightarrow> outcome \<times> state" where
  "except_clause r =
     (case r of
        (Inr _, s) \<Rightarrow> (Returned, s)
      | (Inl e, s) \<Rightarrow>
          if isinstance_Exception e then (Returned, emit (ErrorBox (error_prefix @ str_exc e)) s)
          else (Raised e, s))"

text \<open>
  \<^verbatim>\<open>
  finally:
      if os.path.exists(temp_filename):
          os.unlink(temp_filename)
  \<close>
  The result is the exception the block raises, if any.
\<close>

definition finally_block :: "path \<Rightarrow> state \<Rightarrow> py_exception option \<times> state" where
  "finally_block temp_filename s =
     (if os_path_exists (disk s) temp_filename then
        (let s1 = emit (OsUnlink temp_filename) s
         in case os_unlink (disk s1) temp_filename of
              Inl e \<Rightarrow> (Some e, s1)
            | Inr fs' \<Rightarrow> (None, s1\<lparr>disk := fs'\<rparr>))
      else (None, s))"

text \<open>The \<open>try\<close> statement: the \<open>finally\<close> block runs on every way out, and an exception
  it raises replaces the pending outcome.\<close>

definition try_statement :: "env \<Rightarrow> path \<Rightarrow> state \<Rightarrow> outcome \<times> state" where
  "try_statement ev temp_filename s =
     (case except_clause (try_body ev temp_filename s) of
        (out, s1) \<Rightarrow>
          (case finally_block temp_filename s1 of
             (None, s2) \<Rightarrow> (out, s2)
           | (Some e, s2) \<Rightarrow> (Raised e, s2)))"

text \<open>The block under \<open>if transcribe_button:\<close>. The persist step is outside the \<open>try\<close>.\<close>

definition transcribe_request :: "env \<Rightarrow> upload \<Rightarrow> string \<Rightarrow> state \<Rightarrow> outcome \<times> state" where
  "transcribe_request ev uf file_ext s =
     (case persist ev uf file_ext s of
        Inl e \<Rightarrow> (Raised e, s)
      | Inr (temp_filename, s1) \<Rightarrow> try_statement ev temp_filename s1)"

subsection \<open>\<open>main\<close> and the script\<close>

definition after_check :: "env \<Rightarrow> state \<Rightarrow> outcome \<times> state" where
  "after_check ev s =
     (let s1 = sidebar ev s;
          s2 = emit Columns s1;
          s3 = emit Subheader s2;
          s4 = emit FileUploader s3
      in case uploaded_file ev of
           Some uf \<Rightarrow>
             (let file_ext = file_ext_of (name uf);
                  s5 = preview file_ext s4;
                  s6 = emit Markdown s5;
                  s7 = emit Button s6
              in if transcribe_button ev
                 then transcribe_request ev uf file_ext (emit Spinner s7)
                 else (Returned, s7))
         | None \<Rightarrow> (Returned, emit Markdown (emit Expander (emit InfoBox s4))))"

definition main :: "env \<Rightarrow> state \<Rightarrow> outcome \<times> state" where
  "main ev s =
     (let s1 = emit Title s;
          s2 = emit Markdown s1
      in case check_ffmpeg ev s2 of
           (Returned, s3) \<Rightarrow> after_check ev s3
         | (out, s3) \<Rightarrow> (out, s3))"

text \<open>The module: page configuration and style sheet, then \<open>main()\<close>.\<close>

definition script :: "env \<Rightarrow> state \<Rightarrow> outcome \<times> state" where
  "script ev s = main ev (emit Markdown (emit SetPageConfig s))"

section \<open>Example inputs\<close>

definition example_result :: transcription where
  "example_result =
     \<lparr>full_text = ''ab'',
      segments = [\<lparr>seg_start = 0, seg_end = 1, seg_text = ''a''\<rparr>,
                  \<lparr>seg_start = 1, seg_end = 5 / 2, seg_text = ''b''\<rparr>]\<rparr>"

definition example_upload :: upload where
  "example_upload = \<lparr>name = ''talk.MP3'', getvalue = ''ID3''\<rparr>"

text \<open>A run in which everything works: the tool is installed, a file is uploaded, the
  button is pressed, the model loads and the transcription returns.\<close>

definition example_env :: env where
  "example_env =
     \<lparr>ffmpeg_status = 0, cuda_is_available = False, model_option = ''base'',
      language_option = ''ja'', uploaded_file = Some example_upload,
      transcribe_button = True, tmp_dir = ''/tmp/'', tmp_names = [''k3x9'', ''q7wd''],
      whisper_load = (\<lambda>n d. Inr (Model 1)),
      whisper_transcribe = (\<lambda>m p opts fs. (Inr example_result, fs))\<rparr>"

text \<open>The transcription raises a \<open>RuntimeError\<close>.\<close>

definition failing_env :: env where
  "failing_env =
     example_env\<lparr>whisper_transcribe :=
       (\<lambda>m p opts fs. (Inl (ExceptionInstance ''Failed to load audio''), fs))\<rparr>"

text \<open>The transcription is interrupted: \<open>KeyboardInterrupt\<close> derives from
  \<open>BaseException\<close>, not from \<open>Exception\<close>.\<close>

definition interrupted_env :: env where
  "interrupted_env =
     example_env\<lparr>whisper_transcribe :=
       (\<lambda>m p opts fs. (Inl (BaseExceptionOnly ''KeyboardInterrupt''), fs))\<rparr>"

text \<open>The model cannot be loaded: the library raises (for instance, the download of the
  weights fails).\<close>

definition load_failing_env :: env where
  "load_failing_env =
     example_env\<lparr>whisper_load := (\<lambda>n d. Inl (ExceptionInstance ''download failed''))\<rparr>"

text \<open>The shell reports that the tool is missing.\<close>

definition no_ffmpeg_env :: env where
  "no_ffmpeg_env = example_env\<lparr>ffmpeg_status := 1\<rparr>"

definition initial_state :: state where
  "initial_state = \<lparr>disk = Map.empty, cache = Map.empty, trace = []\<rparr>"

text \<open>The state after the persist step of the example run.\<close>

definition persisted_state :: state where
  "persisted_state =
     \<lparr>disk = [''/tmp/tmpk3x9.mp3'' \<mapsto> ''ID3''], cache = Map.empty,
      trace = [TempFileCreated ''/tmp/tmpk3x9.mp3'']\<rparr>"

section \<open>Basic facts\<close>

lemma disk_emit: "disk (emit e s) = disk s"
  by (simp add: emit_def)

lemma cache_emit: "cache (emit e s) = cache s"
  by (simp add: emit_def)

lemma trace_emit: "trace (emit e s) = trace s @ [e]"
  by (simp add: emit_def)

lemma split_not_Nil: "split sep s \<noteq> []"
  by (induction s) (auto split: list.splits)

lemma split_no_sep: "sep \<notin> set s \<Longrightarrow> split sep s = [s]"
  by (induction s) auto

lemma split_append: "split sep (pre @ sep # rest) = split sep pre @ split sep rest"
proof (induction pre)
  case Nil
  show ?case by simp
next
  case (Cons c pre)
  obtain w ws where w: "split sep pre = w # ws"
    using split_not_Nil [of sep pre] by (cases "split sep pre") auto
  show ?case
    using Cons w by simp
qed

lemma last_split: "sep \<notin> set ext \<Longrightarrow> last (split sep (pre @ sep # ext)) = ext"
  by (simp add: split_append split_no_sep)

lemma file_ext_of_dot:
  "CHR ''.'' \<notin> set ext \<Longrightarrow> file_ext_of (stem @ ''.'' @ ext) = lower ext"
  by (simp add: file_ext_of_def last_split)

section \<open>The cleanup\<close>

lemma finally_block_fst: "fst (finally_block p s) = None"
  by (simp add: finally_block_def os_unlink_def os_path_exists_def disk_emit Let_def)

lemma finally_block_disk: "disk (snd (finally_block p s)) p = None"
  by (simp add: finally_block_def os_unlink_def os_path_exists_def disk_emit Let_def)

lemma finally_block_trace:
  "trace (snd (finally_block p s)) =
     trace s @ (if os_path_exists (disk s) p then [OsUnlink p] else [])"
  by (simp add: finally_block_def os_unlink_def os_path_exists_def disk_emit trace_emit Let_def)

lemma finally_block_absent: "\<not> os_path_exists (disk s) p \<Longrightarrow> finally_block p s = (None, s)"
  by (simp add: finally_block_def)

text \<open>
  C10. The \<open>finally\<close> block calls \<open>os.unlink\<close> exactly when the temporary file exists at
  that moment: it never raises (so no missing-file error), also when the file is already
  gone, in which case it does nothing at all; \<open>os.unlink\<close> on a missing path is never
  reached.
\<close>

theorem cleanup_never_raises:
  "fst (finally_block p s) = None \<and>
   trace (snd (finally_block p s)) =
     trace s @ (if os_path_exists (disk s) p then [OsUnlink p] else []) \<and>
   (if os_path_exists (disk s) p then os_unlink (disk s) p \<noteq> Inl FileNotFoundError
    else finally_block p s = (None, s))"
  by (simp add: finally_block_fst finally_block_trace finally_block_absent)
     (simp add: os_unlink_def os_path_exists_def)

theorem cleanup_never_raises_witness:
  "fst (finally_block ''/tmp/tmpk3x9.mp3'' initial_state) = None \<and>
   trace (snd (finally_block ''/tmp/tmpk3x9.mp3'' initial_state)) = [] \<and>
   finally_block ''/tmp/tmpk3x9.mp3'' initial_state = (None, initial_state) \<and>
   os_unlink (disk initial_state) ''/tmp/tmpk3x9.mp3'' = Inl FileNotFoundError"
  using cleanup_never_raises [of "''/tmp/tmpk3x9.mp3''" initial_state]
  by (simp add: initial_state_def os_path_exists_def os_unlink_def)

section \<open>The temporary file\<close>

lemma try_statement_disk: "disk (snd (try_statement ev p s)) p = None"
proof -
  obtain out s1 where e: "except_clause (try_body ev p s) = (out, s1)"
    by (cases "except_clause (try_body ev p s)")
  obtain r s2 where f: "finally_block p s1 = (r, s2)"
    by (cases "finally_block p s1")
  have "r = None" "disk s2 p = None"
    using finally_block_fst [of p s1] finally_block_disk [of p s1] f by simp_all
  then show ?thesis
    by (simp add: try_statement_def e f)
qed

lemma try_statement_outcome:
  "fst (try_statement ev p s) = fst (except_clause (try_body ev p s))"
proof -
  obtain out s1 where e: "except_clause (try_body ev p s) = (out, s1)"
    by (cases "except_clause (try_body ev p s)")
  obtain r s2 where f: "finally_block p s1 = (r, s2)"
    by (cases "finally_block p s1")
  have "r = None"
    using finally_block_fst [of p s1] f by simp
  then show ?thesis
    by (simp add: try_statement_def e f)
qed

lemma try_statement_trace:
  "trace (snd (try_statement ev p s)) =
     trace (snd (except_clause (try_body ev p s))) @
       (if os_path_exists (disk (snd (except_clause (try_body ev p s)))) p then [OsUnlink p] else [])"
proof -
  obtain out s1 where e: "except_clause (try_body ev p s) = (out, s1)"
    by (cases "except_clause (try_body ev p s)")
  obtain r s2 where f: "finally_block p s1 = (r, s2)"
    by (cases "finally_block p s1")
  have "r = None" "trace s2 = trace s1 @ (if os_path_exists (disk s1) p then [OsUnlink p] else [])"
    using finally_block_fst [of p s1] finally_block_trace [of p s1] f by simp_all
  then show ?thesis
    by (simp add: try_statement_def e f)
qed

lemma mkstemp_Some:
  "mkstemp fs dir ns suf = Some p \<Longrightarrow> fs p = None \<and> (\<exists>n. p = dir @ ''tmp'' @ n @ suf)"
  by (induction ns) (auto simp: os_path_exists_def Let_def split: if_splits)

lemma persist_Inr:
  assumes "persist ev uf file_ext s = Inr (p, s1)"
  shows "disk s p = None" and "\<exists>n. p = tmp_dir ev @ ''tmp'' @ n @ ''.'' @ file_ext"
    and "s1 = emit (TempFileCreated p) (s\<lparr>disk := (disk s)(p \<mapsto> getvalue uf)\<rparr>)"
  using assms mkstemp_Some [of "disk s" "tmp_dir ev" "tmp_names ev" "''.'' @ file_ext" p]
  by (auto simp: persist_def split: option.splits)

text \<open>
  C1. Once the persist step has written the upload to a temporary file, that file does not
  exist when the request is over, whatever the library did and however the \<open>try\<close>
  statement was left: the transcription succeeded, an exception was caught by the
  \<open>except\<close> clause, or an exception passed through it.
\<close>

theorem temp_file_removed:
  assumes "persist ev uf file_ext s = Inr (p, s1)"
  shows "disk s1 p = Some (getvalue uf) \<and>
         transcribe_request ev uf file_ext s = try_statement ev p s1 \<and>
         \<not> os_path_exists (disk (snd (transcribe_request ev uf file_ext s))) p"
proof -
  have "disk s1 p = Some (getvalue uf)"
    using persist_Inr(3) [OF assms] by (simp add: disk_emit)
  moreover have "transcribe_request ev uf file_ext s = try_statement ev p s1"
    using assms by (simp add: transcribe_request_def)
  ultimately show ?thesis
    by (simp add: os_path_exists_def try_statement_disk)
qed

lemma example_persist:
  "persist failing_env example_upload ''mp3'' initial_state =
     Inr (''/tmp/tmpk3x9.mp3'', persisted_state)"
  by (simp add: persist_def failing_env_def example_env_def example_upload_def
      initial_state_def persisted_state_def os_path_exists_def emit_def)

theorem temp_file_removed_witness:
  "persist failing_env example_upload ''mp3'' initial_state =
     Inr (''/tmp/tmpk3x9.mp3'', persisted_state) \<and>
   disk persisted_state ''/tmp/tmpk3x9.mp3'' = Some ''ID3'' \<and>
   \<not> os_path_exists
       (disk (snd (transcribe_request failing_env example_upload ''mp3'' initial_state)))
       ''/tmp/tmpk3x9.mp3''"
proof -
  note t = temp_file_removed [OF example_persist]
  have "disk persisted_state ''/tmp/tmpk3x9.mp3'' = Some ''ID3''"
    using t by (simp add: example_upload_def)
  then show ?thesis
    using t example_persist by blast
qed

section \<open>Exceptions in the \<open>try\<close> body\<close>

lemma load_whisper_model_disk: "disk (snd (load_whisper_model ev k s)) = disk s"
  by (simp add: load_whisper_model_def load_whisper_model_body_def disk_emit Let_def
      split: option.splits sum.splits)

lemma try_body_load_raises:
  assumes "fst (load_whisper_model ev (model_option ev) s) = Inl e"
  shows "try_body ev p s = (Inl e, snd (load_whisper_model ev (model_option ev) s))"
  using assms
  by (cases "load_whisper_model ev (model_option ev) s") (simp add: try_body_def)

lemma try_body_transcribe_raises:
  assumes "load_whisper_model ev (model_option ev) s = (Inr m, s1)"
    and "fst (whisper_transcribe ev m p (build_options (language_option ev)) (disk s1)) = Inl e"
  shows "fst (try_body ev p s) = Inl e"
  using assms
  by (cases "whisper_transcribe ev m p (build_options (language_option ev)) (disk s1)")
     (simp add: try_body_def disk_emit Let_def)

lemma try_body_raises:
  assumes "fst (load_whisper_model ev (model_option ev) s) = Inl e \<or>
           (\<exists>m s1. load_whisper_model ev (model_option ev) s = (Inr m, s1) \<and>
              fst (whisper_transcribe ev m p (build_options (language_option ev)) (disk s1)) = Inl e)"
  shows "fst (try_body ev p s) = Inl e"
  using assms try_body_load_raises [of ev s e p] try_body_transcribe_raises [of ev s _ _ p e]
  by auto

lemma except_clause_caught:
  assumes "fst r = Inl e" and "isinstance_Exception e"
  shows "except_clause r = (Returned, emit (ErrorBox (error_prefix @ str_exc e)) (snd r))"
  using assms by (cases r) (simp add: except_clause_def)

lemma except_clause_uncaught:
  assumes "fst r = Inl e" and "\<not> isinstance_Exception e"
  shows "except_clause r = (Raised e, snd r)"
  using assms by (cases r) (simp add: except_clause_def)

text \<open>An exception outside the \<open>Exception\<close> hierarchy leaves the \<open>try\<close> statement, after
  the cleanup, and no error box is shown for it.\<close>

lemma base_exception_propagates:
  assumes "fst (try_body ev p s) = Inl e" and "\<not> isinstance_Exception e"
  shows "fst (try_statement ev p s) = Raised e"
    and "trace (snd (try_statement ev p s)) =
           trace (snd (try_body ev p s)) @
             (if os_path_exists (disk (snd (try_body ev p s))) p then [OsUnlink p] else [])"
  using except_clause_uncaught [OF assms]
  by (simp_all add: try_statement_outcome try_statement_trace)

text \<open>
  C2, as the code has it. An exception raised by the model load or by the transcription
  whose class derives from \<open>Exception\<close> is caught: the \<open>try\<close> statement returns normally,
  and the page shows one error box whose text is the fixed prefix followed by \<open>str(e)\<close>;
  the cleanup follows.
\<close>

theorem exception_caught_and_reported:
  assumes "isinstance_Exception e"
    and "fst (load_whisper_model ev (model_option ev) s) = Inl e \<or>
         (\<exists>m s1. load_whisper_model ev (model_option ev) s = (Inr m, s1) \<and>
            fst (whisper_transcribe ev m p (build_options (language_option ev)) (disk s1)) = Inl e)"
  shows "fst (try_statement ev p s) = Returned \<and>
         trace (snd (try_statement ev p s)) =
           trace (snd (try_body ev p s)) @ ErrorBox (error_prefix @ str_exc e) #
             (if os_path_exists (disk (snd (try_body ev p s))) p then [OsUnlink p] else [])"
proof -
  have "fst (try_body ev p s) = Inl e"
    using assms(2) by (rule try_body_raises)
  then have "except_clause (try_body ev p s) =
      (Returned, emit (ErrorBox (error_prefix @ str_exc e)) (snd (try_body ev p s)))"
    using assms(1) by (rule except_clause_caught)
  then show ?thesis
    by (simp add: try_statement_outcome try_statement_trace trace_emit disk_emit)
qed

lemma example_load:
  "load_whisper_model example_env ''base'' persisted_state =
     (Inr (Model 1),
      (emit (WhisperLoadModel ''base'' ''cpu'') persisted_state)
        \<lparr>cache := (cache persisted_state)(''base'' \<mapsto> Model 1)\<rparr>)"
  by (simp add: load_whisper_model_def load_whisper_model_body_def example_env_def
      persisted_state_def emit_def)

lemma failing_load:
  "load_whisper_model failing_env (model_option failing_env) persisted_state =
     (Inr (Model 1),
      (emit (WhisperLoadModel ''base'' ''cpu'') persisted_state)
        \<lparr>cache := (cache persisted_state)(''base'' \<mapsto> Model 1)\<rparr>)"
  by (simp add: load_whisper_model_def load_whisper_model_body_def failing_env_def example_env_def
      persisted_state_def emit_def)

theorem exception_caught_and_reported_witness:
  "isinstance_Exception (ExceptionInstance ''Failed to load audio'') \<and>
   fst (whisper_transcribe failing_env (Model 1) ''/tmp/tmpk3x9.mp3''
         (build_options (language_option failing_env)) (disk persisted_state)) =
     Inl (ExceptionInstance ''Failed to load audio'') \<and>
   fst (try_statement failing_env ''/tmp/tmpk3x9.mp3'' persisted_state) = Returned \<and>
   ErrorBox (error_prefix @ ''Failed to load audio'')
     \<in> set (trace (snd (try_statement failing_env ''/tmp/tmpk3x9.mp3'' persisted_state)))"
proof -
  have a: "isinstance_Exception (ExceptionInstance ''Failed to load audio'')"
    by simp
  have b: "fst (whisper_transcribe failing_env (Model 1) ''/tmp/tmpk3x9.mp3''
         (build_options (language_option failing_env)) (disk persisted_state)) =
     Inl (ExceptionInstance ''Failed to load audio'')"
    by (simp add: failing_env_def)
  have c: "fst (load_whisper_model failing_env (model_option failing_env) persisted_state) =
        Inl (ExceptionInstance ''Failed to load audio'') \<or>
      (\<exists>m s1. load_whisper_model failing_env (model_option failing_env) persisted_state = (Inr m, s1) \<and>
         fst (whisper_transcribe failing_env m ''/tmp/tmpk3x9.mp3''
               (build_options (language_option failing_env)) (disk s1)) =
           Inl (ExceptionInstance ''Failed to load audio''))"
    using failing_load by (simp add: failing_env_def)
  show ?thesis
    using exception_caught_and_reported [OF a c] a b by simp
qed

text \<open>
  C2 as stated fails: an exception that does not derive from \<open>Exception\<close> is raised by the
  transcription, the \<open>except\<close> clause does not handle it, no error box is shown and the
  exception leaves the \<open>try\<close> statement (after the cleanup).
\<close>

theorem base_exception_not_caught:
  "fst (whisper_transcribe interrupted_env (Model 1) ''/tmp/tmpk3x9.mp3''
         [(''language'', ''ja'')] (disk persisted_state)) =
     Inl (BaseExceptionOnly ''KeyboardInterrupt'') \<and>
   try_statement interrupted_env ''/tmp/tmpk3x9.mp3'' persisted_state =
     (Raised (BaseExceptionOnly ''KeyboardInterrupt''),
      \<lparr>disk = Map.empty, cache = [''base'' \<mapsto> Model 1],
       trace = [TempFileCreated ''/tmp/tmpk3x9.mp3'', WhisperLoadModel ''base'' ''cpu'',
                Transcribe (Model 1) ''/tmp/tmpk3x9.mp3'' [(''language'', ''ja'')],
                OsUnlink ''/tmp/tmpk3x9.mp3'']\<rparr>)"
  by (simp add: interrupted_env_def example_env_def persisted_state_def try_statement_def
      except_clause_def try_body_def load_whisper_model_def load_whisper_model_body_def
      build_options_def finally_block_def os_path_exists_def os_unlink_def emit_def)

section \<open>The order of the calls\<close>

lemma prefix_emit: "prefix (trace s) (trace (emit e s))"
  by (simp add: trace_emit)

lemma trace_sidebar: "prefix (trace s) (trace (sidebar ev s))"
  by (simp add: sidebar_def trace_emit Let_def)

lemma trace_show_result: "prefix (trace s) (trace (show_result r s))"
  by (simp add: show_result_def trace_emit Let_def split: prod.splits)

lemma trace_load_whisper_model: "prefix (trace s) (trace (snd (load_whisper_model ev k s)))"
  by (simp add: load_whisper_model_def load_whisper_model_body_def trace_emit Let_def
      split: option.splits sum.splits)

lemma try_body_loaded:
  assumes "load_whisper_model ev (model_option ev) s = (Inr m, s1)"
  shows "prefix (trace s1 @ [Transcribe m p (build_options (language_option ev))])
           (trace (snd (try_body ev p s)))"
proof (cases "whisper_transcribe ev m p (build_options (language_option ev)) (disk s1)")
  case (Pair r fs')
  show ?thesis
  proof (cases r)
    case (Inl e)
    then show ?thesis
      using assms Pair by (simp add: try_body_def trace_emit disk_emit Let_def)
  next
    case (Inr result)
    have "prefix (trace s1 @ [Transcribe m p (build_options (language_option ev))])
            (trace (show_result result
               ((emit (Transcribe m p (build_options (language_option ev))) s1)\<lparr>disk := fs'\<rparr>)))"
      using trace_show_result
        [of "(emit (Transcribe m p (build_options (language_option ev))) s1)\<lparr>disk := fs'\<rparr>" result]
      by (simp add: trace_emit)
    then show ?thesis
      using assms Pair Inr by (simp add: try_body_def disk_emit Let_def)
  qed
qed

lemma trace_try_body: "prefix (trace s) (trace (snd (try_body ev p s)))"
proof (cases "load_whisper_model ev (model_option ev) s")
  case (Pair r s1)
  have s1: "prefix (trace s) (trace s1)"
    using trace_load_whisper_model [of s ev "model_option ev"] Pair by simp
  show ?thesis
  proof (cases r)
    case (Inl e)
    then show ?thesis
      using Pair s1 by (simp add: try_body_def)
  next
    case (Inr m)
    have "prefix (trace s1) (trace (snd (try_body ev p s)))"
      using try_body_loaded [of ev s m s1 p] Pair Inr
      by (meson append_prefixD)
    then show ?thesis
      using s1 by (rule prefix_order.trans [rotated])
  qed
qed

lemma trace_except_clause: "prefix (trace (snd r)) (trace (snd (except_clause r)))"
  by (cases r) (simp add: except_clause_def trace_emit split: sum.splits)

lemma trace_try_statement: "prefix (trace s) (trace (snd (try_statement ev p s)))"
proof -
  have "prefix (trace s) (trace (snd (except_clause (try_body ev p s))))"
    using trace_try_body [of s ev p] trace_except_clause [of "try_body ev p s"]
    by (rule prefix_order.trans)
  then show ?thesis
    by (simp add: try_statement_trace prefix_def) auto
qed

lemma trace_transcribe_request:
  "prefix (trace s) (trace (snd (transcribe_request ev uf file_ext s)))"
proof (cases "persist ev uf file_ext s")
  case (Inl e)
  then show ?thesis by (simp add: transcribe_request_def)
next
  case (Inr ps)
  obtain p s1 where ps: "ps = (p, s1)" by (cases ps)
  have "prefix (trace s) (trace s1)"
    using persist_Inr(3) [of ev uf file_ext s p s1] Inr ps by (simp add: trace_emit)
  then have "prefix (trace s) (trace (snd (try_statement ev p s1)))"
    using trace_try_statement [of s1 ev p] by (rule prefix_order.trans)
  then show ?thesis
    using Inr ps by (simp add: transcribe_request_def)
qed

lemma after_check_upload:
  assumes "uploaded_file ev = Some uf"
  shows "prefix
           (trace (sidebar ev s) @
              [Columns, Subheader, FileUploader, Subheader, InfoBox,
               player (file_ext_of (name uf)), Markdown, Button])
           (trace (snd (after_check ev s)))"
proof (cases "transcribe_button ev")
  case False
  then show ?thesis
    using assms by (simp add: after_check_def preview_def trace_emit Let_def)
next
  case True
  let ?s7 = "emit Button (emit Markdown (preview (file_ext_of (name uf))
               (emit FileUploader (emit Subheader (emit Columns (sidebar ev s))))))"
  let ?s8 = "emit Spinner ?s7"
  have "prefix (trace ?s8) (trace (snd (transcribe_request ev uf (file_ext_of (name uf)) ?s8)))"
    by (rule trace_transcribe_request)
  moreover have "trace ?s8 = (trace (sidebar ev s) @
              [Columns, Subheader, FileUploader, Subheader, InfoBox,
               player (file_ext_of (name uf)), Markdown, Button]) @ [Spinner]"
    by (simp add: preview_def trace_emit)
  moreover have "after_check ev s = transcribe_request ev uf (file_ext_of (name uf)) ?s8"
    using assms True by (simp add: after_check_def Let_def)
  ultimately have "prefix ((trace (sidebar ev s) @
              [Columns, Subheader, FileUploader, Subheader, InfoBox,
               player (file_ext_of (name uf)), Markdown, Button]) @ [Spinner])
            (trace (snd (after_check ev s)))"
    by simp
  then show ?thesis
    by (rule append_prefixD)
qed

lemma trace_after_check: "prefix (trace s) (trace (snd (after_check ev s)))"
proof (cases "uploaded_file ev")
  case None
  have "prefix (trace s) (trace (sidebar ev s))" by (rule trace_sidebar)
  then show ?thesis
    using None by (auto simp: after_check_def trace_emit Let_def prefix_def)
next
  case (Some uf)
  have "prefix (trace (sidebar ev s)) (trace (snd (after_check ev s)))"
    using after_check_upload [OF Some, of s] by (meson append_prefixD)
  then show ?thesis
    using trace_sidebar [of s ev] by (rule prefix_order.trans [rotated])
qed

section \<open>The tool check\<close>

text \<open>
  C3. When the shell command reports a non-zero status, \<open>main\<close> ends at \<open>st.stop()\<close>: the
  run shows the title, the introduction and the error box and nothing else, so the upload
  control is not rendered, no file is written and the transcription library is not
  called. In every run the shell command is the third call, before the upload control.
\<close>

theorem ffmpeg_check_precedes_upload:
  "(ffmpeg_status ev \<noteq> 0 \<longrightarrow>
      main ev s =
        (Stopped,
         s\<lparr>trace := trace s @
            [Title, Markdown, OsSystem ''ffmpeg -version > NUL 2>&1'',
             ErrorBox ffmpeg_missing_message]\<rparr>)) \<and>
   prefix (trace s @ [Title, Markdown, OsSystem ''ffmpeg -version > NUL 2>&1''])
     (trace (snd (main ev s))) \<and>
   FileUploader \<notin> set [Title, Markdown, OsSystem ''ffmpeg -version > NUL 2>&1'',
                          ErrorBox ffmpeg_missing_message]"
proof -
  let ?s3 = "emit (OsSystem ''ffmpeg -version > NUL 2>&1'') (emit Markdown (emit Title s))"
  have a: "ffmpeg_status ev \<noteq> 0 \<Longrightarrow>
      main ev s =
        (Stopped,
         s\<lparr>trace := trace s @
            [Title, Markdown, OsSystem ''ffmpeg -version > NUL 2>&1'',
             ErrorBox ffmpeg_missing_message]\<rparr>)"
    by (simp add: main_def check_ffmpeg_def emit_def)
  have t: "trace ?s3 = trace s @ [Title, Markdown, OsSystem ''ffmpeg -version > NUL 2>&1'']"
    by (simp add: trace_emit)
  have b: "prefix (trace s @ [Title, Markdown, OsSystem ''ffmpeg -version > NUL 2>&1''])
     (trace (snd (main ev s)))"
  proof (cases "ffmpeg_status ev = 0")
    case True
    then have "main ev s = after_check ev ?s3"
      by (simp add: main_def check_ffmpeg_def Let_def)
    then show ?thesis
      using trace_after_check [of ?s3 ev] t by simp
  next
    case False
    then show ?thesis
      using a by simp
  qed
  show ?thesis
    using a b by simp
qed

theorem ffmpeg_check_precedes_upload_witness:
  "ffmpeg_status no_ffmpeg_env \<noteq> 0 \<and>
   main no_ffmpeg_env initial_state =
     (Stopped,
      \<lparr>disk = Map.empty, cache = Map.empty,
       trace = [Title, Markdown, OsSystem ''ffmpeg -version > NUL 2>&1'',
                ErrorBox ffmpeg_missing_message]\<rparr>)"
proof -
  have h: "ffmpeg_status no_ffmpeg_env \<noteq> 0"
    by (simp add: no_ffmpeg_env_def)
  show ?thesis
    using ffmpeg_check_precedes_upload [of no_ffmpeg_env initial_state] h
    by (simp add: initial_state_def)
qed

section \<open>The language hint\<close>



section \<open>The model cache\<close>

lemma load_whisper_model_hit:
  "cache s k = Some m \<Longrightarrow> load_whisper_model ev k s = (Inr m, s)"
  by (simp add: load_whisper_model_def)

lemma load_whisper_model_miss_raises:
  assumes "cache s k = None" and "fst (load_whisper_model ev k s) = Inl e"
  shows "cache (snd (load_whisper_model ev k s)) k = None"
    and "load_count k (trace (snd (load_whisper_model ev k s))) = load_count k (trace s) + 1"
  using assms
  by (cases "cuda_is_available ev";
      auto simp: load_whisper_model_def load_whisper_model_body_def load_count_def
        cache_emit trace_emit Let_def split: sum.splits)+

lemma load_whisper_model_returns:
  assumes "load_whisper_model ev k s = (Inr m, s1)"
  shows "cache s1 k = Some m"
    and "load_count k (trace s1) = load_count k (trace s) + (if cache s k = None then 1 else 0)"
  using assms
  by (cases "cuda_is_available ev";
      auto simp: load_whisper_model_def load_whisper_model_body_def load_count_def
        cache_emit trace_emit Let_def split: option.splits sum.splits)+

lemma cache_load_whisper_model:
  "cache s k = Some m \<Longrightarrow> cache (snd (load_whisper_model ev k' s)) k = Some m"
  by (cases "cuda_is_available ev")
     (auto simp: load_whisper_model_def load_whisper_model_body_def cache_emit Let_def
        split: option.splits sum.splits)

lemma cache_sidebar: "cache (sidebar ev s) = cache s"
  by (simp add: sidebar_def cache_emit Let_def)

lemma cache_preview: "cache (preview x s) = cache s"
  by (simp add: preview_def cache_emit)

lemma cache_show_result: "cache (show_result r s) = cache s"
  by (simp add: show_result_def cache_emit Let_def split: prod.splits)

lemma cache_try_body:
  assumes "cache s k = Some m"
  shows "cache (snd (try_body ev p s)) k = Some m"
proof (cases "load_whisper_model ev (model_option ev) s")
  case (Pair r s1)
  have s1: "cache s1 k = Some m"
    using cache_load_whisper_model [OF assms, of ev "model_option ev"] Pair by simp
  show ?thesis
  proof (cases r)
    case (Inl e)
    then show ?thesis using Pair s1 by (simp add: try_body_def)
  next
    case (Inr model)
    then show ?thesis
      using Pair s1
      by (simp add: try_body_def cache_emit cache_show_result Let_def split: prod.splits sum.splits)
  qed
qed

lemma cache_except_clause: "cache (snd (except_clause r)) = cache (snd r)"
  by (cases r) (simp add: except_clause_def cache_emit split: sum.splits)

lemma cache_finally_block: "cache (snd (finally_block p s)) = cache s"
  by (simp add: finally_block_def os_unlink_def os_path_exists_def cache_emit Let_def)

lemma cache_try_statement:
  assumes "cache s k = Some m"
  shows "cache (snd (try_statement ev p s)) k = Some m"
proof -
  obtain out s1 where e: "except_clause (try_body ev p s) = (out, s1)"
    by (cases "except_clause (try_body ev p s)")
  have "cache s1 k = Some m"
    using cache_try_body [OF assms, of ev p] cache_except_clause [of "try_body ev p s"] e
    by simp
  moreover obtain r s2 where f: "finally_block p s1 = (r, s2)"
    by (cases "finally_block p s1")
  ultimately have "cache s2 k = Some m"
    using cache_finally_block [of p s1] by simp
  then show ?thesis
    by (simp add: try_statement_def e f split: option.splits)
qed

lemma cache_transcribe_request:
  assumes "cache s k = Some m"
  shows "cache (snd (transcribe_request ev uf x s)) k = Some m"
proof (cases "persist ev uf x s")
  case (Inl e)
  then show ?thesis using assms by (simp add: transcribe_request_def)
next
  case (Inr ps)
  obtain p s1 where ps: "ps = (p, s1)" by (cases ps)
  have "cache s1 k = Some m"
    using persist_Inr(3) [of ev uf x s p s1] Inr ps assms by (simp add: cache_emit)
  then show ?thesis
    using Inr ps by (simp add: transcribe_request_def cache_try_statement)
qed

lemma cache_after_check:
  assumes "cache s k = Some m"
  shows "cache (snd (after_check ev s)) k = Some m"
  using assms
  by (simp add: after_check_def cache_emit cache_sidebar cache_preview
      cache_transcribe_request Let_def split: option.splits)

lemma cache_main:
  assumes "cache s k = Some m"
  shows "cache (snd (main ev s)) k = Some m"
  using assms
  by (simp add: main_def check_ffmpeg_def cache_emit cache_after_check Let_def)

text \<open>
  C7, as the code has it. When a request for a model size has returned a model, the model is in the cache
  under that size and stays there through every later run of the page; a second request
  for the same size returns the same object and leaves the state as it is, so the load
  path is not run again. Over the first request the load path ran once if the size was not
  cached and not at all if it was.
\<close>

theorem model_loaded_once:
  assumes "load_whisper_model ev1 k s = (Inr m, s1)"
  shows "load_whisper_model ev2 k s1 = (Inr m, s1) \<and>
         load_count k (trace s1) = load_count k (trace s) + (if cache s k = None then 1 else 0) \<and>
         load_whisper_model ev2 k (snd (main ev3 s1)) = (Inr m, snd (main ev3 s1))"
proof -
  have c: "cache s1 k = Some m"
    using assms by (rule load_whisper_model_returns(1))
  then have "cache (snd (main ev3 s1)) k = Some m"
    by (rule cache_main)
  then show ?thesis
    using c load_whisper_model_returns(2) [OF assms] by (simp add: load_whisper_model_hit)
qed

theorem model_loaded_once_witness:
  "load_whisper_model example_env ''base'' persisted_state =
     (Inr (Model 1),
      (emit (WhisperLoadModel ''base'' ''cpu'') persisted_state)
        \<lparr>cache := (cache persisted_state)(''base'' \<mapsto> Model 1)\<rparr>) \<and>
   load_whisper_model failing_env ''base''
     ((emit (WhisperLoadModel ''base'' ''cpu'') persisted_state)
        \<lparr>cache := (cache persisted_state)(''base'' \<mapsto> Model 1)\<rparr>) =
     (Inr (Model 1),
      (emit (WhisperLoadModel ''base'' ''cpu'') persisted_state)
        \<lparr>cache := (cache persisted_state)(''base'' \<mapsto> Model 1)\<rparr>)"
  using model_loaded_once [OF example_load, of failing_env] example_load
  by blast

text \<open>
  C7 as stated fails: it has no condition on the first request. When the load raises,
  nothing is stored, and a second request for the same size runs the load path a second
  time. Here the library raises on both requests for \<open>base\<close>, and the load path has run
  twice.
\<close>

theorem failed_load_runs_again:
  "load_whisper_model load_failing_env ''base'' initial_state =
     (Inl (ExceptionInstance ''download failed''),
      \<lparr>disk = Map.empty, cache = Map.empty, trace = [WhisperLoadModel ''base'' ''cpu'']\<rparr>) \<and>
   load_whisper_model load_failing_env ''base''
     \<lparr>disk = Map.empty, cache = Map.empty, trace = [WhisperLoadModel ''base'' ''cpu'']\<rparr> =
     (Inl (ExceptionInstance ''download failed''),
      \<lparr>disk = Map.empty, cache = Map.empty,
       trace = [WhisperLoadModel ''base'' ''cpu'', WhisperLoadModel ''base'' ''cpu'']\<rparr>) \<and>
   load_count ''base'' (trace initial_state) = 0 \<and>
   load_count ''base'' [WhisperLoadModel ''base'' ''cpu'', WhisperLoadModel ''base'' ''cpu''] = 2"
  by (simp add: load_whisper_model_def load_whisper_model_body_def load_failing_env_def
      example_env_def initial_state_def emit_def load_count_def)

text \<open>A load that raises stores nothing: the next request for that size runs the load
  path again.\<close>

lemma failed_load_not_cached:
  assumes "cache s k = None" and "load_whisper_model ev1 k s = (Inl e, s1)"
  shows "load_count k (trace (snd (load_whisper_model ev2 k s1))) = load_count k (trace s) + 2"
proof -
  have "cache s1 k = None" "load_count k (trace s1) = load_count k (trace s) + 1"
    using load_whisper_model_miss_raises [of s k ev1 e] assms by simp_all
  then show ?thesis
    by (cases "cuda_is_available ev2")
       (auto simp: load_whisper_model_def load_whisper_model_body_def load_count_def
          trace_emit Let_def split: sum.splits)
qed

section \<open>The persist step and the preview\<close>

text \<open>
  C8, as the code has it. For an upload whose name ends in a dot and an extension without
  dots, a persist step that succeeds creates a file that did not exist before (the name is
  unique), whose name ends in a dot and the extension in lower case, and whose content is
  the uploaded bytes; no other file changes. This is the call \<open>main\<close> makes when the
  button is pressed.
\<close>

theorem persist_suffix:
  assumes "name uf = stem @ ''.'' @ ext" and "CHR ''.'' \<notin> set ext"
    and "persist ev uf (file_ext_of (name uf)) s = Inr (p, s1)"
  shows "(\<exists>n. p = tmp_dir ev @ ''tmp'' @ n @ ''.'' @ lower ext) \<and>
         disk s p = None \<and>
         disk s1 = (disk s)(p \<mapsto> getvalue uf) \<and>
         transcribe_request ev uf (file_ext_of (name uf)) s = try_statement ev p s1"
proof -
  have "file_ext_of (name uf) = lower ext"
    using file_ext_of_dot [OF assms(2), of stem] assms(1) by simp
  then show ?thesis
    using persist_Inr [OF assms(3)] assms(3) by (simp add: disk_emit transcribe_request_def)
qed

lemma lower_MP3: "lower ''MP3'' = ''mp3''"
  by code_simp

lemma example_file_ext: "file_ext_of (name example_upload) = ''mp3''"
proof -
  have "file_ext_of (''talk'' @ ''.'' @ ''MP3'') = lower ''MP3''"
    by (rule file_ext_of_dot) simp
  then show ?thesis
    by (simp add: example_upload_def lower_MP3)
qed

lemma example_persist_upload:
  "persist example_env example_upload (file_ext_of (name example_upload)) initial_state =
     Inr (''/tmp/tmpk3x9.mp3'', persisted_state)"
  by (simp add: example_file_ext)
     (simp add: persist_def example_env_def example_upload_def
        initial_state_def persisted_state_def os_path_exists_def emit_def)

theorem persist_suffix_witness:
  "name example_upload = ''talk'' @ ''.'' @ ''MP3'' \<and>
   CHR ''.'' \<notin> set ''MP3'' \<and>
   persist example_env example_upload (file_ext_of (name example_upload)) initial_state =
     Inr (''/tmp/tmpk3x9.mp3'', persisted_state) \<and>
   disk initial_state ''/tmp/tmpk3x9.mp3'' = None \<and>
   disk persisted_state = (disk initial_state)(''/tmp/tmpk3x9.mp3'' \<mapsto> ''ID3'') \<and>
   lower ''MP3'' = ''mp3''"
proof -
  have a: "name example_upload = ''talk'' @ ''.'' @ ''MP3''"
    by (simp add: example_upload_def)
  have b: "CHR ''.'' \<notin> set ''MP3''"
    by simp
  have "disk initial_state ''/tmp/tmpk3x9.mp3'' = None \<and>
      disk persisted_state = (disk initial_state)(''/tmp/tmpk3x9.mp3'' \<mapsto> getvalue example_upload)"
    using persist_suffix [OF a b example_persist_upload] by blast
  moreover have "getvalue example_upload = ''ID3''"
    by (simp add: example_upload_def)
  moreover note lower_MP3
  ultimately show ?thesis
    using a b example_persist_upload by simp
qed

text \<open>
  C8 as stated fails on an extension with capital letters: the suffix is the extension in
  lower case, not the text after the last dot of the filename. The upload \<open>talk.MP3\<close> is
  written to a file whose name ends in \<open>.mp3\<close> and not in \<open>.MP3\<close>.
\<close>

theorem persist_suffix_lowercased:
  "name example_upload = ''talk.MP3'' \<and>
   last (split (CHR ''.'') (name example_upload)) = ''MP3'' \<and>
   persist example_env example_upload (file_ext_of (name example_upload)) initial_state =
     Inr (''/tmp/tmpk3x9.mp3'', persisted_state) \<and>
   \<not> suffix ''.MP3'' ''/tmp/tmpk3x9.mp3'' \<and>
   suffix ''.mp3'' ''/tmp/tmpk3x9.mp3''"
proof -
  have "name example_upload = ''talk.MP3''"
    by (simp add: example_upload_def)
  moreover have "last (split (CHR ''.'') (name example_upload)) = ''MP3''"
    by (simp add: example_upload_def)
  moreover have "\<not> suffix ''.MP3'' ''/tmp/tmpk3x9.mp3''"
    by (simp add: suffix_to_prefix)
  moreover have "suffix ''.mp3'' ''/tmp/tmpk3x9.mp3''"
    by (simp add: suffix_to_prefix)
  ultimately show ?thesis
    using example_persist_upload by simp
qed

text \<open>
  C9. The preview of an upload whose name ends in a dot and an extension without dots is
  chosen by that extension in lower case: a video player for \<open>mp4\<close>, \<open>mov\<close>, \<open>mkv\<close> and
  \<open>webm\<close>, and for any other extension an audio player whose format is \<open>audio/\<close>
  followed by the lower-case extension. It is the call after the file information box.
\<close>

theorem preview_player:
  assumes "uploaded_file ev = Some uf" and "name uf = stem @ ''.'' @ ext"
    and "CHR ''.'' \<notin> set ext"
  shows "prefix
           (trace (sidebar ev s) @
              [Columns, Subheader, FileUploader, Subheader, InfoBox,
               (if lower ext \<in> {''mp4'', ''mov'', ''mkv'', ''webm''} then Video
                else Audio (''audio/'' @ lower ext))])
           (trace (snd (after_check ev s)))"
proof -
  have "file_ext_of (name uf) = lower ext"
    using file_ext_of_dot [OF assms(3), of stem] assms(2) by simp
  then have "prefix
           (trace (sidebar ev s) @
              [Columns, Subheader, FileUploader, Subheader, InfoBox, player (lower ext),
               Markdown, Button])
           (trace (snd (after_check ev s)))"
    using after_check_upload [OF assms(1), of s] by simp
  then have "prefix
           ((trace (sidebar ev s) @
              [Columns, Subheader, FileUploader, Subheader, InfoBox, player (lower ext)]) @
               [Markdown, Button])
           (trace (snd (after_check ev s)))"
    by simp
  then have "prefix
           (trace (sidebar ev s) @
              [Columns, Subheader, FileUploader, Subheader, InfoBox, player (lower ext)])
           (trace (snd (after_check ev s)))"
    by (rule append_prefixD)
  then show ?thesis
    by (simp add: player_def)
qed

theorem preview_player_witness:
  "uploaded_file example_env = Some example_upload \<and>
   name example_upload = ''talk'' @ ''.'' @ ''MP3'' \<and>
   CHR ''.'' \<notin> set ''MP3'' \<and>
   prefix
     (trace (sidebar example_env initial_state) @
        [Columns, Subheader, FileUploader, Subheader, InfoBox, Audio ''audio/mp3''])
     (trace (snd (after_check example_env initial_state)))"
proof -
  have a: "uploaded_file example_env = Some example_upload"
    by (simp add: example_env_def)
  have b: "name example_upload = ''talk'' @ ''.'' @ ''MP3''"
    by (simp add: example_upload_def)
  have c: "CHR ''.'' \<notin> set ''MP3''"
    by simp
  note l = lower_MP3
  have "prefix
     (trace (sidebar example_env initial_state) @
        [Columns, Subheader, FileUploader, Subheader, InfoBox, Audio ''audio/mp3''])
     (trace (snd (after_check example_env initial_state)))"
    using preview_player [OF a b c, of initial_state] by (simp add: l)
  then show ?thesis
    using a b c by blast
qed

section \<open>The timestamped transcript\<close>

lemma foldl_segment_step:
  "snd (foldl segment_step acc segs) = snd acc @ concat (map segment_line segs)"
  by (induction segs arbitrary: acc) (simp_all add: segment_step_def segment_line_def Let_def)

lemma format_timestamp_0: "format_timestamp 0 = ''00:00:00.000''"
  by code_simp

lemma format_timestamp_1: "format_timestamp 1 = ''00:00:01.000''"
  by code_simp

lemma format_timestamp_2_5: "format_timestamp (5 / 2) = ''00:00:02.500''"
  by code_simp

lemma format_timestamp_3661_5: "format_timestamp (7323 / 2) = ''01:01:01.500''"
  by code_simp

lemma last_show_result:
  "last (trace (show_result result s)) = DownloadButton (timestamp_text result)"
  by (simp add: show_result_def timestamp_text_def trace_emit Let_def split: prod.splits)

text \<open>
  C5. For the two segments (0, 1, "a") and (1, 2.5, "b") the timestamped transcript is
  the two lines given; for every result it is the concatenation, in the order of the
  segments, of one line per segment: the formatted start and end in brackets, the text,
  a newline. It is the data of the second download button.
\<close>

theorem timestamped_transcript:
  "timestamp_text
     \<lparr>full_text = t,
      segments = [\<lparr>seg_start = 0, seg_end = 1, seg_text = ''a''\<rparr>,
                  \<lparr>seg_start = 1, seg_end = 5 / 2, seg_text = ''b''\<rparr>]\<rparr> =
     ''[00:00:00.000 --> 00:00:01.000] a'' @ [CHR 0x0A] @
     ''[00:00:01.000 --> 00:00:02.500] b'' @ [CHR 0x0A] \<and>
   timestamp_text result =
     concat (map (\<lambda>seg. ''['' @ format_timestamp (seg_start seg) @ '' --> '' @
                          format_timestamp (seg_end seg) @ ''] '' @ seg_text seg @ [CHR 0x0A])
               (segments result)) \<and>
   last (trace (show_result result s)) = DownloadButton (timestamp_text result)"
proof -
  have g: "timestamp_text r = concat (map segment_line (segments r))" for r
    by (simp add: timestamp_text_def format_segments_def foldl_segment_step)
  have "segment_line = (\<lambda>seg. ''['' @ format_timestamp (seg_start seg) @ '' --> '' @
                          format_timestamp (seg_end seg) @ ''] '' @ seg_text seg @ [CHR 0x0A])"
    by (rule ext) (simp add: segment_line_def)
  then show ?thesis
    using g [of result] last_show_result [of result s]
    by (simp add: g segment_line_def format_timestamp_0 format_timestamp_1 format_timestamp_2_5)
qed

section \<open>The shape of a formatted timestamp\<close>

lemma is_digit_digit_char: "d < 10 \<Longrightarrow> is_digit (digit_char d)"
  by (simp add: is_digit_def digit_char_def)

lemma digits_is_digit: "c \<in> set (digits n) \<Longrightarrow> is_digit c"
proof (induction n arbitrary: c rule: digits.induct)
  case (1 n)
  show ?case
  proof (cases "n < 10")
    case True
    then show ?thesis
      using "1.prems" by (simp add: digits.simps [of n] is_digit_digit_char)
  next
    case False
    then show ?thesis
      using "1.prems" "1.IH"
      by (auto simp: digits.simps [of n] is_digit_digit_char)
  qed
qed

lemma length_digits_pos: "1 \<le> length (digits n)"
  by (subst digits.simps) simp

lemma length_digits_10: "n < 10 \<Longrightarrow> length (digits n) = 1"
  by (subst digits.simps) simp

lemma length_digits_100: "n < 100 \<Longrightarrow> length (digits n) \<le> 2"
  by (subst digits.simps) (simp add: length_digits_10)

lemma length_digits_1000: "n < 1000 \<Longrightarrow> length (digits n) \<le> 3"
  using length_digits_100 [of "n div 10"]
  by (subst digits.simps) (simp add: length_digits_10)

lemma length_zfill: "length (zfill w s) = max w (length s)"
  by (simp add: zfill_def)

lemma zfill_is_digit: "(\<And>c. c \<in> set s \<Longrightarrow> is_digit c) \<Longrightarrow> c \<in> set (zfill w s) \<Longrightarrow> is_digit c"
  by (auto simp: zfill_def is_digit_def)

lemma zfill_6_body:
  assumes "length a \<le> 2" and "length b = 3"
  shows "zfill 6 (a @ ''.'' @ b) = zfill 2 a @ ''.'' @ b"
proof -
  have "6 - (length a + 4) = 2 - length a"
    using assms(1) by simp
  then show ?thesis
    using assms(2) by (simp add: zfill_def)
qed

lemma round_half_even_bounds: "\<lfloor>y\<rfloor> \<le> round_half_even y \<and> round_half_even y \<le> \<lfloor>y\<rfloor> + 1"
  by (simp add: round_half_even_def Let_def)

lemma fmt_02d_nonneg: "0 \<le> n \<Longrightarrow> fmt_02d n = zfill 2 (digits (nat n))"
  by (simp add: fmt_02d_def)

lemma fmt_06_3f_seconds:
  assumes "0 \<le> s" and "s < 60"
  shows "fmt_06_3f s =
           zfill 2 (digits (nat (round_half_even (s * 1000)) div 1000)) @ ''.'' @
           zfill 3 (digits (nat (round_half_even (s * 1000)) mod 1000))"
    and "nat (round_half_even (s * 1000)) div 1000 \<le> 60"
proof -
  let ?r = "nat (round_half_even (s * 1000))"
  have "s * 1000 < 60000"
    using assms(2) by simp
  then have "\<lfloor>s * 1000\<rfloor> < 60000"
    by (simp add: floor_less_iff)
  then have "round_half_even (s * 1000) \<le> 60000"
    using round_half_even_bounds [of "s * 1000"] by linarith
  then have r: "?r \<le> 60000"
    by simp
  then show d: "?r div 1000 \<le> 60"
    by simp
  have "length (digits (?r div 1000)) \<le> 2"
    using d by (intro length_digits_100) simp
  moreover have "length (zfill 3 (digits (?r mod 1000))) = 3"
    using length_digits_1000 [of "?r mod 1000"] by (simp add: length_zfill)
  ultimately have "zfill 6 (digits (?r div 1000) @ ''.'' @ zfill 3 (digits (?r mod 1000))) =
      zfill 2 (digits (?r div 1000)) @ ''.'' @ zfill 3 (digits (?r mod 1000))"
    by (rule zfill_6_body)
  then show "fmt_06_3f s =
           zfill 2 (digits (?r div 1000)) @ ''.'' @ zfill 3 (digits (?r mod 1000))"
    using assms(1) by (simp add: fmt_06_3f_def Let_def abs_of_nonneg)
qed

lemma py_divmod_60:
  "py_divmod x 60 = (of_int \<lfloor>x / 60\<rfloor>, x - of_int \<lfloor>x / 60\<rfloor> * 60)"
  by (simp add: py_divmod_def)

lemma remainder_bounds:
  fixes x :: rat
  shows "0 \<le> x - of_int \<lfloor>x / 60\<rfloor> * 60" and "x - of_int \<lfloor>x / 60\<rfloor> * 60 < 60"
proof -
  have "of_int \<lfloor>x / 60\<rfloor> \<le> x / 60"
    by (rule of_int_floor_le)
  then show "0 \<le> x - of_int \<lfloor>x / 60\<rfloor> * 60"
    by simp
  have "x / 60 < of_int \<lfloor>x / 60\<rfloor> + 1"
    using floor_correct [of "x / 60"] by simp
  then show "x - of_int \<lfloor>x / 60\<rfloor> * 60 < 60"
    by simp
qed

lemma floor_of_int_div_60: "\<lfloor>(of_int q :: rat) / 60\<rfloor> = q div 60"
  using floor_divide_of_int_eq [of q 60, where ?'a = rat] by simp

lemma of_int_minus_div_60: "(of_int q :: rat) - of_int (q div 60) * 60 = of_int (q mod 60)"
proof -
  have "(of_int q :: rat) - of_int (q div 60) * 60 = of_int (q - (q div 60) * 60)"
    by simp
  also have "q - (q div 60) * 60 = q mod 60"
    by (simp add: minus_div_mult_eq_mod)
  finally show ?thesis .
qed

text \<open>The formatted timestamp, field by field.\<close>

lemma format_timestamp_fields:
  "format_timestamp x =
     fmt_02d (\<lfloor>x / 60\<rfloor> div 60) @ '':'' @ fmt_02d (\<lfloor>x / 60\<rfloor> mod 60) @ '':'' @
     fmt_06_3f (x - of_int \<lfloor>x / 60\<rfloor> * 60)"
  by (simp add: format_timestamp_def py_divmod_def floor_of_int_div_60 of_int_minus_div_60)

lemma format_timestamp_nonneg:
  fixes x :: rat
  assumes x: "0 \<le> x"
  defines "q \<equiv> \<lfloor>x / 60\<rfloor>"
  defines "r \<equiv> nat (round_half_even ((x - of_int \<lfloor>x / 60\<rfloor> * 60) * 1000))"
  shows "format_timestamp x =
           zfill 2 (digits (nat (q div 60))) @ '':'' @ zfill 2 (digits (nat (q mod 60))) @ '':'' @
           zfill 2 (digits (r div 1000)) @ ''.'' @ zfill 3 (digits (r mod 1000))"
    and "2 \<le> length (zfill 2 (digits (nat (q div 60))))"
    and "length (zfill 2 (digits (nat (q mod 60)))) = 2"
    and "length (zfill 2 (digits (r div 1000))) = 2"
    and "length (zfill 3 (digits (r mod 1000))) = 3"
proof -
  have q: "0 \<le> q"
    using x by (simp add: q_def)
  then have h: "0 \<le> q div 60"
    by (simp add: pos_imp_zdiv_nonneg_iff)
  have m: "0 \<le> q mod 60" "q mod 60 < 60"
    by simp_all
  have sec: "fmt_06_3f (x - of_int \<lfloor>x / 60\<rfloor> * 60) =
      zfill 2 (digits (r div 1000)) @ ''.'' @ zfill 3 (digits (r mod 1000))"
    unfolding r_def by (rule fmt_06_3f_seconds(1) [OF remainder_bounds])
  have d: "r div 1000 \<le> 60"
    unfolding r_def by (rule fmt_06_3f_seconds(2) [OF remainder_bounds])
  have "format_timestamp x =
     fmt_02d (q div 60) @ '':'' @ fmt_02d (q mod 60) @ '':'' @
     fmt_06_3f (x - of_int \<lfloor>x / 60\<rfloor> * 60)"
    unfolding q_def by (rule format_timestamp_fields)
  then show "format_timestamp x =
           zfill 2 (digits (nat (q div 60))) @ '':'' @ zfill 2 (digits (nat (q mod 60))) @ '':'' @
           zfill 2 (digits (r div 1000)) @ ''.'' @ zfill 3 (digits (r mod 1000))"
    by (simp only: fmt_02d_nonneg [OF h] fmt_02d_nonneg [OF m(1)] sec)
  show "2 \<le> length (zfill 2 (digits (nat (q div 60))))"
    by (simp add: length_zfill)
  have "nat (q mod 60) < 100"
    using m by linarith
  then show "length (zfill 2 (digits (nat (q mod 60)))) = 2"
    using length_digits_100 [of "nat (q mod 60)"] by (simp add: length_zfill)
  have "r div 1000 < 100"
    using d by linarith
  then show "length (zfill 2 (digits (r div 1000))) = 2"
    using length_digits_100 [of "r div 1000"] by (simp add: length_zfill)
  show "length (zfill 3 (digits (r mod 1000))) = 3"
    using length_digits_1000 [of "r mod 1000"] by (simp add: length_zfill)
qed

lemma zfill_digits_is_digit: "c \<in> set (zfill w (digits n)) \<Longrightarrow> is_digit c"
  using zfill_is_digit [of "digits n" c w] digits_is_digit [of _ n] by blast

text \<open>
  C4. Zero seconds is formatted as \<open>00:00:00.000\<close> and 3661.5 seconds as
  \<open>01:01:01.500\<close>. For every non-negative input the result is hours, a colon, minutes,
  a colon, seconds: the hours are the decimal digits of the whole hours padded with zeros
  to at least two digits, the minutes are exactly two digits, and the seconds are two
  digits, a point and exactly three digits.
\<close>

theorem format_timestamp_shape:
  "format_timestamp 0 = ''00:00:00.000'' \<and>
   format_timestamp (7323 / 2) = ''01:01:01.500'' \<and>
   (0 \<le> x \<longrightarrow>
      (\<exists>hh mm ss fff.
         format_timestamp x = hh @ '':'' @ mm @ '':'' @ ss @ ''.'' @ fff \<and>
         hh = zfill 2 (digits (nat (\<lfloor>x / 60\<rfloor> div 60))) \<and>
         mm = zfill 2 (digits (nat (\<lfloor>x / 60\<rfloor> mod 60))) \<and>
         2 \<le> length hh \<and> length mm = 2 \<and> length ss = 2 \<and> length fff = 3 \<and>
         (\<forall>c \<in> set (hh @ mm @ ss @ fff). is_digit c)))"
proof (intro conjI impI)
  show "format_timestamp 0 = ''00:00:00.000''"
    by (rule format_timestamp_0)
  show "format_timestamp (7323 / 2) = ''01:01:01.500''"
    by (rule format_timestamp_3661_5)
next
  assume x: "0 \<le> x"
  let ?hh = "zfill 2 (digits (nat (\<lfloor>x / 60\<rfloor> div 60)))"
  let ?mm = "zfill 2 (digits (nat (\<lfloor>x / 60\<rfloor> mod 60)))"
  let ?r = "nat (round_half_even ((x - of_int \<lfloor>x / 60\<rfloor> * 60) * 1000))"
  let ?ss = "zfill 2 (digits (?r div 1000))"
  let ?fff = "zfill 3 (digits (?r mod 1000))"
  note f = format_timestamp_nonneg [OF x]
  have dg: "\<forall>c \<in> set (?hh @ ?mm @ ?ss @ ?fff). is_digit c"
    by (auto dest: zfill_digits_is_digit)
  have "format_timestamp x = ?hh @ '':'' @ ?mm @ '':'' @ ?ss @ ''.'' @ ?fff \<and>
         ?hh = ?hh \<and> ?mm = ?mm \<and>
         2 \<le> length ?hh \<and> length ?mm = 2 \<and> length ?ss = 2 \<and> length ?fff = 3 \<and>
         (\<forall>c \<in> set (?hh @ ?mm @ ?ss @ ?fff). is_digit c)"
    using f dg by (intro conjI) (assumption | rule refl)+
  then show "\<exists>hh mm ss fff.
         format_timestamp x = hh @ '':'' @ mm @ '':'' @ ss @ ''.'' @ fff \<and>
         hh = ?hh \<and> mm = ?mm \<and>
         2 \<le> length hh \<and> length mm = 2 \<and> length ss = 2 \<and> length fff = 3 \<and>
         (\<forall>c \<in> set (hh @ mm @ ss @ fff). is_digit c)"
    by (intro exI)
qed

theorem format_timestamp_shape_witness:
  "(0::rat) \<le> 7323 / 2 \<and>
   (\<exists>hh mm ss fff.
      format_timestamp (7323 / 2) = hh @ '':'' @ mm @ '':'' @ ss @ ''.'' @ fff \<and>
      hh = zfill 2 (digits (nat (\<lfloor>(7323 / 2 :: rat) / 60\<rfloor> div 60))) \<and>
      mm = zfill 2 (digits (nat (\<lfloor>(7323 / 2 :: rat) / 60\<rfloor> mod 60))) \<and>
      2 \<le> length hh \<and> length mm = 2 \<and> length ss = 2 \<and> length fff = 3 \<and>
      (\<forall>c \<in> set (hh @ mm @ ss @ fff). is_digit c))"
proof -
  have h: "(0::rat) \<le> 7323 / 2"
    by simp
  note t = format_timestamp_shape [of "7323 / 2", THEN conjunct2, THEN conjunct2, THEN mp, OF h]
  show ?thesis
    using h t by (rule conjI)
qed

end
